theory Spec2Isabelle
  imports Complex_Main "HOL-Library.Multiset"
begin

section \<open>Python values, exceptions and observable effects\<close>

text \<open>
  The two modules \<^verbatim>\<open>dicomity/dicom.py\<close> and \<^verbatim>\<open>dicomity/load.py\<close> are embedded as HOL
  functions. A Python exception is a value \<open>Inl e\<close>, a normal return is \<open>Inr v\<close>. Every
  call that leaves the two modules (opening a file, the pydicom reader, numpy's allocator,
  the reporting object) is recorded as an \<open>event\<close>; a function returns the events it
  performed, in order, together with its outcome. The calls to the reporting object are
  recorded whether the caller passed the object or the function created the default one.
\<close>

datatype py_error =
    IndexError
  | ZeroDivisionError
  | ValueError
  | TypeError
  | OSError string
  | ExternalError string

type_synonym bytes = "char list"

datatype np_dtype =
    Int8 | UInt8 | Int16 | UInt16 | Int32 | UInt32 | Float32 | Float64
  | BytesDtype nat
  | StrDtype nat

record ndarray =
  shape :: "int list"
  dtype :: np_dtype
  items :: "int list"

record dcm_request =
  fp :: string
  stop_before_pixels :: bool
  specific_tags :: "string list option"

datatype event =
    ShowProgress string
  | UpdateProgress int
  | CompleteProgress
  | ShowWarning string string
  | ShowMessage string string
  | OpenFile string
  | DcmRead dcm_request
  | NpZeros "int list" np_dtype

type_synonym 'a run = "event list \<times> (py_error + 'a)"

definition ret :: "'a \<Rightarrow> 'a run" where
  "ret x = ([], Inr x)"

definition raise :: "py_error \<Rightarrow> 'a run" where
  "raise e = ([], Inl e)"

definition emit :: "event \<Rightarrow> unit run" where
  "emit ev = ([ev], Inr ())"

definition bind :: "'a run \<Rightarrow> ('a \<Rightarrow> 'b run) \<Rightarrow> 'b run" where
  "bind m f =
     (case m of
        (es, Inl e) \<Rightarrow> (es, Inl e)
      | (es, Inr x) \<Rightarrow> (case f x of (es', r) \<Rightarrow> (es @ es', r)))"

definition seq :: "unit run \<Rightarrow> 'b run \<Rightarrow> 'b run" where
  "seq m k = bind m (\<lambda>_. k)"

definition lift :: "py_error + 'a \<Rightarrow> 'a run" where
  "lift r = ([], r)"

section \<open>Slices, stacks and filename arguments\<close>

text \<open>
  The grouping metadata of one slice (\<^verbatim>\<open>dicomity.types.GroupingMetadata\<close>, the spec's
  TagSnapshot). \<^verbatim>\<open>load.py\<close> reads \<open>Rows\<close>, \<open>Columns\<close> and \<open>SamplesPerPixel\<close>; the
  series key, the two in-plane direction cosines and the optional patient position are the
  fields the grouping and the geometric reconstruction use.
\<close>

type_synonym vec3 = "real \<times> real \<times> real"

record grouping_metadata =
  Rows :: int
  Columns :: int
  SamplesPerPixel :: int
  seriesKey :: string
  orientationVector :: "vec3 \<times> vec3"
  position :: "vec3 option"

record stack_item =
  filename :: string
  metadata :: grouping_metadata

type_synonym dicom_stack = "stack_item list"

text \<open>
  An entry of a filename list is a plain string or a \<^verbatim>\<open>CoreFilename\<close> carrying its own
  path; the \<^verbatim>\<open>filenames\<close> argument is a single string, a single \<^verbatim>\<open>CoreFilename\<close> or
  a list of entries.
\<close>

datatype file_ref = PlainName string | CoreFilename string string

datatype filenames_arg = OneStr string | OneCoreFilename string string | Many "file_ref list"

section \<open>The collaborators outside the two modules\<close>

text \<open>
  \<open>files\<close> is the file system seen by \<^verbatim>\<open>open(file_name, "rb")\<close>: the content of a file
  that can be opened, \<open>None\<close> otherwise (\<^verbatim>\<open>open\<close> then raises an \<^verbatim>\<open>OSError\<close>: the file is
  missing, is a directory or may not be read). \<open>dcmread\<close> is pydicom's
  \<^verbatim>\<open>filereader.dcmread\<close>, \<open>pixel_array\<close> the dataset's property of that name; both may
  raise, and the decoded array may be absent. \<open>sort_filenames\<close>
  (\<^verbatim>\<open>dicomity.util\<close>), \<open>groupingTags\<close> and \<open>fromPyDicom\<close> (\<^verbatim>\<open>dicomity.types\<close>),
  \<open>allTags\<close> and the truth value of a dictionary object (\<^verbatim>\<open>dicomity.dictionary\<close>) are
  parameters as well. \<open>'ds\<close> is the type of pydicom datasets and \<open>'dict\<close> the type of
  dictionaries.
\<close>

record ('ds, 'dict) env =
  files :: "string \<Rightarrow> bytes option"
  dcmread :: "dcm_request \<Rightarrow> py_error + 'ds"
  pixel_array :: "'ds \<Rightarrow> py_error + ndarray option"
  groupingTags :: "string list"
  fromPyDicom :: "'ds \<Rightarrow> py_error + grouping_metadata"
  allTags :: "'dict \<Rightarrow> string list"
  truthy :: "'dict \<Rightarrow> bool"
  sort_filenames :: "file_ref list \<Rightarrow> file_ref list"

section \<open>dicom.py\<close>

definition read_dicom_image :: "('ds, 'dict) env \<Rightarrow> string \<Rightarrow> (ndarray option) run" where
  "read_dicom_image env file_name =
     (let req = \<lparr>fp = file_name, stop_before_pixels = False, specific_tags = None\<rparr> in
      bind (seq (emit (DcmRead req)) (lift (dcmread env req)))
        (\<lambda>meta. lift (pixel_array env meta)))"

definition read_dicom_tags ::
    "('ds, 'dict) env \<Rightarrow> string \<Rightarrow> 'dict option \<Rightarrow> string list option \<Rightarrow> 'ds run" where
  "read_dicom_tags env file_name dictionary specific_tags0 =
     (let specific_tags1 =
            (case dictionary of
               None \<Rightarrow> specific_tags0
             | Some d \<Rightarrow> if truthy env d then Some (allTags env d) else specific_tags0);
          req = \<lparr>fp = file_name, stop_before_pixels = True, specific_tags = specific_tags1\<rparr>
      in seq (emit (DcmRead req)) (lift (dcmread env req)))"

definition read_grouping_metadata :: "('ds, 'dict) env \<Rightarrow> string \<Rightarrow> grouping_metadata run" where
  "read_grouping_metadata env file_name =
     (let req = \<lparr>fp = file_name, stop_before_pixels = True,
                 specific_tags = Some (groupingTags env)\<rparr> in
      bind (seq (emit (DcmRead req)) (lift (dcmread env req)))
        (\<lambda>meta. lift (fromPyDicom env meta)))"

text \<open>
  \<^verbatim>\<open>f.seek(128)\<close> may move past the end of the file, and \<^verbatim>\<open>f.read(4)\<close> returns the
  bytes that exist from there, at most four.
\<close>

definition is_dicom :: "('ds, 'dict) env \<Rightarrow> string \<Rightarrow> bool run" where
  "is_dicom env file_name =
     seq (emit (OpenFile file_name))
       (case files env file_name of
          None \<Rightarrow> raise (OSError file_name)
        | Some content \<Rightarrow>
            (let preamble = take 4 (drop 128 content) in ret (preamble = ''DICM'')))"

text \<open>\<^verbatim>\<open>os.path.join\<close> of two components on a POSIX system.\<close>

definition join :: "string \<Rightarrow> string \<Rightarrow> string" where
  "join a b =
     (if b \<noteq> [] \<and> hd b = CHR ''/'' then b
      else if a = [] \<or> last a = CHR ''/'' then a @ b
      else a @ ''/'' @ b)"

definition is_dicom_image_file :: "('ds, 'dict) env \<Rightarrow> string \<Rightarrow> string \<Rightarrow> bool run" where
  "is_dicom_image_file env file_path file_name =
     (if file_name = ''DICOMDIR'' then ret False
      else is_dicom env (join file_path file_name))"

section \<open>numpy and the image wrapper\<close>

text \<open>
  \<^verbatim>\<open>np.char\<close> is numpy's module of string operations, not a dtype. The comparison
  \<^verbatim>\<open>data_type == np.char\<close> is numpy's \<^verbatim>\<open>dtype.__eq__\<close>: the right operand is converted to
  a dtype and compared; an operand that cannot be read as a dtype, as a module cannot,
  makes the comparison \<^verbatim>\<open>False\<close>.
\<close>

datatype py_object = DtypeObject np_dtype | ModuleObject string

definition np_char :: py_object where
  "np_char = ModuleObject ''numpy.char''"

definition dtype_eq :: "np_dtype \<Rightarrow> py_object \<Rightarrow> bool" where
  "dtype_eq d other = (case other of DtypeObject d' \<Rightarrow> d = d' | ModuleObject _ \<Rightarrow> False)"

text \<open>
  The voxel buffer \<^verbatim>\<open>raw_image\<close>: its shape, its dtype and, for every index of the slice
  axis, what that plane holds: the zeros of the allocation, an array written there, or the
  value numpy stores for Python's \<^verbatim>\<open>None\<close>. The conversion of the written values to the
  buffer's dtype is numpy's own: the written array is recorded as it was decoded, not as
  numpy stores it after the cast, and a conversion that numpy refuses (text into a numeric
  buffer) has no branch here. The \<^verbatim>\<open>CoreWrapper\<close> starts with no buffer.
\<close>

datatype plane = Zeros | Written ndarray | WrittenNone

record volume_buffer =
  buf_shape :: "int list"
  buf_dtype :: np_dtype
  planes :: "plane list"

record core_wrapper =
  raw_image :: "volume_buffer option"

definition CoreWrapper :: core_wrapper where
  "CoreWrapper = \<lparr>raw_image = None\<rparr>"

text \<open>\<^verbatim>\<open>np.zeros(image_size, data_type)\<close>: a negative dimension raises \<^verbatim>\<open>ValueError\<close>.\<close>

definition np_zeros :: "int list \<Rightarrow> np_dtype \<Rightarrow> volume_buffer run" where
  "np_zeros image_size data_type =
     seq (emit (NpZeros image_size data_type))
       (if list_ex (\<lambda>n. n < 0) image_size then raise ValueError
        else ret \<lparr>buf_shape = image_size, buf_dtype = data_type,
                  planes = replicate (if 2 < length image_size then nat (image_size ! 2) else 0)
                             Zeros\<rparr>)"

text \<open>
  numpy's rule for assigning an array to a selection: the shapes are aligned at their last
  dimension, every source dimension equals the target's or is 1, and source dimensions
  beyond the target's must be 1. Both shapes are given last dimension first.
\<close>

fun broadcastable_rev :: "int list \<Rightarrow> int list \<Rightarrow> bool" where
  "broadcastable_rev [] ts = True"
| "broadcastable_rev (s # ss) [] = (s = 1 \<and> broadcastable_rev ss [])"
| "broadcastable_rev (s # ss) (t # ts) = ((s = t \<or> s = 1) \<and> broadcastable_rev ss ts)"

definition can_assign :: "int list \<Rightarrow> int list \<Rightarrow> bool" where
  "can_assign src tgt = broadcastable_rev (rev src) (rev tgt)"

text \<open>
  \<^verbatim>\<open>raw_image[:, :, k] = v\<close> (three indices) and \<^verbatim>\<open>raw_image[:, :, k, :] = v\<close> (four):
  the buffer must have as many dimensions as there are indices and \<open>k\<close> must exist on the
  slice axis (\<^verbatim>\<open>IndexError\<close>); an array must be assignable to the selected plane
  (\<^verbatim>\<open>ValueError\<close>); \<^verbatim>\<open>None\<close> is refused by an integer buffer (\<^verbatim>\<open>TypeError\<close>) and
  stored, converted, by the others.
\<close>

definition plane_shape :: "volume_buffer \<Rightarrow> int list" where
  "plane_shape buf = take 2 (buf_shape buf) @ drop 3 (buf_shape buf)"

definition is_integer_dtype :: "np_dtype \<Rightarrow> bool" where
  "is_integer_dtype d = (d \<in> {Int8, UInt8, Int16, UInt16, Int32, UInt32})"

definition assign_plane ::
    "core_wrapper \<Rightarrow> nat \<Rightarrow> nat \<Rightarrow> ndarray option \<Rightarrow> core_wrapper run" where
  "assign_plane w n_indices k v =
     (case raw_image w of
        None \<Rightarrow> raise TypeError
      | Some buf \<Rightarrow>
          if length (buf_shape buf) < n_indices \<or> length (planes buf) \<le> k
          then raise IndexError
          else (case v of
                  None \<Rightarrow>
                    if is_integer_dtype (buf_dtype buf) then raise TypeError
                    else ret (w\<lparr>raw_image :=
                                 Some (buf\<lparr>planes := (planes buf)[k := WrittenNone]\<rparr>)\<rparr>)
                | Some a \<Rightarrow>
                    if can_assign (shape a) (plane_shape buf)
                    then ret (w\<lparr>raw_image :=
                                 Some (buf\<lparr>planes := (planes buf)[k := Written a]\<rparr>)\<rparr>)
                    else raise ValueError))"

text \<open>
  \<^verbatim>\<open>round(100 * file_index / num_slices)\<close>: true division, then rounding to the nearest
  integer with ties to the even one. The quotient is taken exactly; the floating-point
  quotient rounds to the same integer for every list length a run can have.
\<close>

definition py_round_ratio :: "int \<Rightarrow> int \<Rightarrow> int run" where
  "py_round_ratio a b =
     (if b = 0 then raise ZeroDivisionError
      else let a' = (if b < 0 then - a else a); b' = \<bar>b\<bar>;
               q = a' div b'; r = a' mod b'
           in ret (if 2 * r < b' then q
                   else if 2 * r > b' then q + 1
                   else if even q then q else q + 1))"

section \<open>load.py: load_images_from_stack\<close>

definition stack_get :: "'a list \<Rightarrow> nat \<Rightarrow> 'a run" where
  "stack_get xs i = (if i < length xs then ret (xs ! i) else raise IndexError)"

definition store_slice :: "int \<Rightarrow> core_wrapper \<Rightarrow> nat \<Rightarrow> ndarray option \<Rightarrow> core_wrapper run" where
  "store_slice samples_per_pixel image_wrapper file_index next_slice =
     (if samples_per_pixel > 1
      then assign_plane image_wrapper 4 file_index next_slice
      else assign_plane image_wrapper 3 file_index next_slice)"

fun remaining_slices ::
    "('ds, 'dict) env \<Rightarrow> dicom_stack \<Rightarrow> int \<Rightarrow> nat \<Rightarrow> nat list \<Rightarrow> core_wrapper \<Rightarrow> core_wrapper run" where
  "remaining_slices env stack samples_per_pixel num_slices [] image_wrapper = ret image_wrapper"
| "remaining_slices env stack samples_per_pixel num_slices (file_index # rest) image_wrapper =
     bind (stack_get stack file_index) (\<lambda>item.
     bind (read_dicom_image env (filename item)) (\<lambda>next_slice.
     bind (store_slice samples_per_pixel image_wrapper file_index next_slice) (\<lambda>image_wrapper'.
     bind (py_round_ratio (100 * int file_index) (int num_slices)) (\<lambda>percent.
     seq (emit (UpdateProgress percent))
       (remaining_slices env stack samples_per_pixel num_slices rest image_wrapper')))))"

definition load_images_from_stack :: "('ds, 'dict) env \<Rightarrow> dicom_stack \<Rightarrow> core_wrapper run" where
  "load_images_from_stack env stack =
     seq (emit (ShowProgress ''Reading pixel data''))
    (seq (emit (UpdateProgress 0))
    (let image_wrapper = CoreWrapper;
         num_slices = length stack
     in
     bind (stack_get stack 0) (\<lambda>item0.
     bind (read_dicom_image env (filename item0)) (\<lambda>first.
     case first of
       None \<Rightarrow> ret image_wrapper
     | Some first_image_slice \<Rightarrow>
        (let size_i = Rows (metadata item0);
             size_j = Columns (metadata item0);
             size_k = int num_slices;
             samples_per_pixel = SamplesPerPixel (metadata item0);
             data_type0 = dtype first_image_slice
         in
         bind (if dtype_eq data_type0 np_char
               then seq (emit (ShowMessage ''load_images_from_stack:SettingDatatypeToInt8''
                                 ''Char datatype detected. Setting to int8''))
                      (ret Int8)
               else ret data_type0) (\<lambda>data_type.
         let image_size = (if samples_per_pixel > 1
                           then [size_i, size_j, size_k, samples_per_pixel]
                           else [size_i, size_j, size_k])
         in
         bind (np_zeros image_size data_type) (\<lambda>buf.
         bind (store_slice samples_per_pixel (image_wrapper\<lparr>raw_image := Some buf\<rparr>) 0
                 (Some first_image_slice)) (\<lambda>image_wrapper1.
         bind (remaining_slices env stack samples_per_pixel num_slices [1..<num_slices]
                 image_wrapper1) (\<lambda>image_wrapper2.
         seq (emit CompleteProgress) (ret image_wrapper2))))))))))"

section \<open>group.py: the grouper and the stack\<close>

text \<open>
  Modelled from the spec: \<^verbatim>\<open>dicomity/group.py\<close> (\<^verbatim>\<open>DicomGrouper\<close>, \<^verbatim>\<open>DicomStack\<close>) is not
  among the sources. A grouper is the list of its groups in the order of their creation,
  each with its series key and its slices in the order they were added. \<open>add_item\<close>
  appends the slice to the group whose series key matches and creates a new group if there
  is none; \<open>largest_stack\<close> selects the group with the most members, the first one
  with that count. The spec does not say what \<open>largest_stack\<close> does without any group;
  the model raises, as the maximum of an empty collection does.
\<close>

type_synonym dicom_grouper = "(string \<times> dicom_stack) list"

definition DicomGrouper :: dicom_grouper where
  "DicomGrouper = []"

fun add_item :: "dicom_grouper \<Rightarrow> string \<Rightarrow> grouping_metadata \<Rightarrow> dicom_grouper" where
  "add_item [] fn m = [(seriesKey m, [\<lparr>filename = fn, metadata = m\<rparr>])]"
| "add_item ((k, members) # gs) fn m =
     (if k = seriesKey m then (k, members @ [\<lparr>filename = fn, metadata = m\<rparr>]) # gs
      else (k, members) # add_item gs fn m)"

definition number_of_groups :: "dicom_grouper \<Rightarrow> nat" where
  "number_of_groups g = length g"

fun largest_of :: "dicom_stack \<Rightarrow> dicom_grouper \<Rightarrow> dicom_stack" where
  "largest_of best [] = best"
| "largest_of best ((k, members) # gs) =
     (if length best < length members then largest_of members gs else largest_of best gs)"

definition largest_stack :: "dicom_grouper \<Rightarrow> dicom_stack run" where
  "largest_stack g =
     (case g of [] \<Rightarrow> raise ValueError | (k, members) # gs \<Rightarrow> ret (largest_of members gs))"

text \<open>
  Modelled from the spec: \<open>sort_and_get_parameters\<close> of \<^verbatim>\<open>DicomStack\<close> (section 4.2).
  The slice axis is the cross product of the two in-plane direction cosines of the group's
  orientation; a position is projected on it by the scalar product. When every slice has a
  position the slices are sorted stably by that scalar, the slice thickness is the median
  of the consecutive differences, the origin is the position of the first sorted slice and
  the sorted positions are the scalars in order. Otherwise the order is kept, a warning is
  emitted, the thickness is unknown (\<open>None\<close>) and the positions are the indices. An
  orientation that differs within the group is reported by a warning. The spec leaves the
  origin of the fallback open; the model gives the position of the first slice, if any.
  Coordinates are real numbers: floating-point rounding is not modelled.
\<close>

definition cross :: "vec3 \<Rightarrow> vec3 \<Rightarrow> vec3" where
  "cross u v =
     (case u of (u1, u2, u3) \<Rightarrow> case v of (v1, v2, v3) \<Rightarrow>
        (u2 * v3 - u3 * v2, u3 * v1 - u1 * v3, u1 * v2 - u2 * v1))"

definition dot :: "vec3 \<Rightarrow> vec3 \<Rightarrow> real" where
  "dot u v = (case u of (u1, u2, u3) \<Rightarrow> case v of (v1, v2, v3) \<Rightarrow> u1 * v1 + u2 * v2 + u3 * v3)"

definition slice_axis :: "grouping_metadata \<Rightarrow> vec3" where
  "slice_axis m = cross (fst (orientationVector m)) (snd (orientationVector m))"

definition has_position :: "stack_item \<Rightarrow> bool" where
  "has_position item = (case position (metadata item) of None \<Rightarrow> False | Some p \<Rightarrow> True)"

definition same_orientation :: "grouping_metadata \<Rightarrow> stack_item \<Rightarrow> bool" where
  "same_orientation m item = (orientationVector (metadata item) = orientationVector m)"

definition axis_coordinate :: "vec3 \<Rightarrow> stack_item \<Rightarrow> real" where
  "axis_coordinate axis item =
     (case position (metadata item) of None \<Rightarrow> 0 | Some p \<Rightarrow> dot p axis)"

definition consecutive_differences :: "real list \<Rightarrow> real list" where
  "consecutive_differences xs = map (\<lambda>(a, b). b - a) (zip xs (tl xs))"

definition median :: "real list \<Rightarrow> real" where
  "median xs =
     (let s = sort xs; n = length s
      in if odd n then s ! (n div 2) else (s ! (n div 2 - 1) + s ! (n div 2)) / 2)"

definition slice_thickness_of :: "real list \<Rightarrow> real option" where
  "slice_thickness_of sorted_positions =
     (case consecutive_differences sorted_positions of
        [] \<Rightarrow> None
      | d # ds \<Rightarrow> Some (median (d # ds)))"

definition sort_and_get_parameters ::
    "dicom_stack \<Rightarrow> (dicom_stack \<times> real option \<times> vec3 option \<times> real list) run" where
  "sort_and_get_parameters stack =
     (case stack of
        [] \<Rightarrow> ret ([], None, None, [])
      | first # _ \<Rightarrow>
          (let axis = slice_axis (metadata first) in
           seq (if list_all (same_orientation (metadata first)) stack
                then ret ()
                else emit (ShowWarning ''DicomStack:InconsistentOrientation''
                             ''The images in this group do not share one orientation.''))
             (if list_all has_position stack
              then (let sorted_stack = sort_key (axis_coordinate axis) stack;
                        sorted_positions = map (axis_coordinate axis) sorted_stack
                    in ret (sorted_stack, slice_thickness_of sorted_positions,
                            position (metadata (hd sorted_stack)), sorted_positions))
              else seq (emit (ShowWarning ''DicomStack:MissingPositions''
                                ''Image positions are missing; the images are kept in filename order.''))
                     (ret (stack, None, position (metadata first),
                           map real [0..<length stack])))))"

section \<open>load.py: the metadata pass and the pipeline\<close>

definition normalise_filenames :: "filenames_arg \<Rightarrow> file_ref list" where
  "normalise_filenames filenames =
     (case filenames of
        OneStr s \<Rightarrow> [PlainName s]
      | OneCoreFilename p n \<Rightarrow> [CoreFilename p n]
      | Many xs \<Rightarrow> xs)"

definition combined_name :: "string \<Rightarrow> file_ref \<Rightarrow> string" where
  "combined_name image_path next_file =
     (case next_file of
        CoreFilename file_path file_name \<Rightarrow> join file_path file_name
      | PlainName file_name \<Rightarrow> join image_path file_name)"

definition not_a_dicom_file_warning :: "string \<Rightarrow> event" where
  "not_a_dicom_file_warning combined_file_name =
     ShowWarning ''load_metadata_from_dicom_files:NotADicomFile''
       (''load_metadata_from_dicom_files: The file '' @ combined_file_name @
        '' is not a DICOM file and will be removed from this series.'')"

fun metadata_pass ::
    "('ds, 'dict) env \<Rightarrow> string \<Rightarrow> nat \<Rightarrow> file_ref list \<Rightarrow> nat \<Rightarrow> dicom_grouper
       \<Rightarrow> dicom_grouper run" where
  "metadata_pass env image_path num_slices [] file_index dicom_grouper = ret dicom_grouper"
| "metadata_pass env image_path num_slices (next_file # rest) file_index dicom_grouper =
     (let combined_file_name = combined_name image_path next_file in
      bind (is_dicom env combined_file_name) (\<lambda>ok.
      bind (if ok
            then bind (read_grouping_metadata env combined_file_name)
                   (\<lambda>m. ret (add_item dicom_grouper combined_file_name m))
            else seq (emit (not_a_dicom_file_warning combined_file_name)) (ret dicom_grouper))
        (\<lambda>dicom_grouper'.
      bind (py_round_ratio (100 * int file_index) (int num_slices)) (\<lambda>percent.
      seq (emit (UpdateProgress percent))
        (metadata_pass env image_path num_slices rest (file_index + 1) dicom_grouper')))))"

definition load_metadata_from_dicom_files ::
    "('ds, 'dict) env \<Rightarrow> string \<Rightarrow> filenames_arg \<Rightarrow> dicom_grouper run" where
  "load_metadata_from_dicom_files env image_path filenames0 =
     seq (emit (ShowProgress ''Reading image metadata''))
    (seq (emit (UpdateProgress 0))
    (let filenames = normalise_filenames filenames0;
         sorted_filenames = sort_filenames env filenames;
         num_slices = length filenames
     in
     bind (metadata_pass env image_path num_slices sorted_filenames 0 DicomGrouper)
       (\<lambda>dicom_grouper.
     seq (emit CompleteProgress) (ret dicom_grouper))))"

definition multiple_groupings_warning :: event where
  "multiple_groupings_warning =
     ShowWarning ''load_main_image_from_dicom_files:MultipleGroupings''
       (''I have removed some images from this dataset because the images '' @
        ''did not form a coherent set. This may be due to the presence of '' @
        ''scout images or dose reports, or localizer images in multiple '' @
        ''orientations. I have formed a volume form the largest coherent '' @
        ''set of images in the same orientation.'')"

definition load_main_image_from_dicom_files ::
    "('ds, 'dict) env \<Rightarrow> string \<Rightarrow> filenames_arg
       \<Rightarrow> (core_wrapper \<times> grouping_metadata \<times> real option \<times> vec3 option \<times> real list) run" where
  "load_main_image_from_dicom_files env image_path filenames0 =
     (let filenames = (case filenames0 of OneStr s \<Rightarrow> Many [PlainName s] | _ \<Rightarrow> filenames0) in
     bind (load_metadata_from_dicom_files env image_path filenames) (\<lambda>file_grouper.
     seq (if number_of_groups file_grouper > 1 then emit multiple_groupings_warning else ret ())
    (bind (largest_stack file_grouper) (\<lambda>main_group.
     bind (sort_and_get_parameters main_group)
       (\<lambda>(sorted_group, slice_thickness, global_origin_mm, sorted_positions).
     bind (stack_get (map metadata sorted_group) 0) (\<lambda>representative_metadata.
     bind (load_images_from_stack env sorted_group) (\<lambda>image_wrapper.
     ret (image_wrapper, representative_metadata, slice_thickness, global_origin_mm,
          sorted_positions))))))))"

section \<open>Auxiliary notions for the statements\<close>

text \<open>
  The files whose pixel data were requested from the reader during a run, in order; the
  shape handed to \<^verbatim>\<open>np.zeros\<close> for a stack; the buffer as allocated.
\<close>

fun pixel_reads :: "event list \<Rightarrow> string list" where
  "pixel_reads [] = []"
| "pixel_reads (DcmRead r # es) =
     (if stop_before_pixels r then pixel_reads es else fp r # pixel_reads es)"
| "pixel_reads (ev # es) = pixel_reads es"

fun warning_codes :: "event list \<Rightarrow> string list" where
  "warning_codes [] = []"
| "warning_codes (ShowWarning code text # es) = code # warning_codes es"
| "warning_codes (ev # es) = warning_codes es"


text \<open>
  Evenly spaced coordinates \<open>a, a + d, \<dots>\<close>, and the number of consecutive differences of
  a list that lie below and above a value.
\<close>

definition evenly_spaced :: "real \<Rightarrow> real \<Rightarrow> nat \<Rightarrow> real list" where
  "evenly_spaced a d n = map (\<lambda>i. a + real i * d) [0..<n]"

definition gaps_below :: "real \<Rightarrow> real list \<Rightarrow> nat" where
  "gaps_below d xs = length (filter (\<lambda>g. g < d) (consecutive_differences xs))"

definition gaps_above :: "real \<Rightarrow> real list \<Rightarrow> nat" where
  "gaps_above d xs = length (filter (\<lambda>g. d < g) (consecutive_differences xs))"

definition image_size_of :: "dicom_stack \<Rightarrow> int list" where
  "image_size_of stack =
     (let m = metadata (stack ! 0) in
      if SamplesPerPixel m > 1
      then [Rows m, Columns m, int (length stack), SamplesPerPixel m]
      else [Rows m, Columns m, int (length stack)])"

definition fresh_buffer :: "dicom_stack \<Rightarrow> np_dtype \<Rightarrow> volume_buffer" where
  "fresh_buffer stack d =
     \<lparr>buf_shape = image_size_of stack, buf_dtype = d, planes = replicate (length stack) Zeros\<rparr>"

section \<open>Example inputs\<close>

text \<open>
  A small directory \<^verbatim>\<open>s\<close> on which the functions are evaluated: three slices of a series
  \<^verbatim>\<open>A\<close>, one slice of a series \<^verbatim>\<open>B\<close>, two colour slices of a series \<^verbatim>\<open>C\<close>, a file whose
  pixel data decode to nothing, one whose pixel data are text, one that the reader rejects,
  a directory index \<^verbatim>\<open>DICOMDIR\<close> and an empty stub. A dataset is identified by its path.
\<close>

definition dicom_bytes :: bytes where
  "dicom_bytes = replicate 128 (CHR 0x00) @ ''DICM'' @ ''data''"

definition example_files :: "string \<Rightarrow> bytes option" where
  "example_files name =
     (if name \<in> set [''s/a1'', ''s/a2'', ''s/a3'', ''s/b1'', ''s/DICOMDIR''] then Some dicom_bytes
      else if name = ''s/stub'' then Some []
      else if name = ''s/notes'' then Some ''plain text''
      else None)"

definition example_item :: "string \<Rightarrow> int \<Rightarrow> string \<Rightarrow> real \<Rightarrow> stack_item" where
  "example_item name spp key z =
     \<lparr>filename = name,
      metadata = \<lparr>Rows = 2, Columns = 2, SamplesPerPixel = spp, seriesKey = key,
                  orientationVector = ((1, 0, 0), (0, 1, 0)), position = Some (0, 0, z)\<rparr>\<rparr>"

definition example_metadata :: "string \<Rightarrow> py_error + grouping_metadata" where
  "example_metadata name =
     (if name = ''s/a1'' then Inr (metadata (example_item name 1 ''A'' 4))
      else if name = ''s/a2'' then Inr (metadata (example_item name 1 ''A'' 0))
      else if name = ''s/a3'' then Inr (metadata (example_item name 1 ''A'' 2))
      else if name = ''s/b1'' then Inr (metadata (example_item name 1 ''B'' 0))
      else if name = ''s/DICOMDIR'' then Inr (metadata (example_item name 1 ''D'' 0))
      else Inl (ExternalError ''missing tags''))"

definition example_pixels :: "string \<Rightarrow> py_error + ndarray option" where
  "example_pixels name =
     (if name \<in> set [''s/a1'', ''s/a2'', ''s/a3'', ''s/b1'']
      then Inr (Some \<lparr>shape = [2, 2], dtype = Int16, items = [1, 2, 3, 4]\<rparr>)
      else if name \<in> set [''s/c1'', ''s/c2'']
      then Inr (Some \<lparr>shape = [2, 2, 3], dtype = UInt8, items = replicate 12 7\<rparr>)
      else if name = ''s/txt''
      then Inr (Some \<lparr>shape = [2, 2], dtype = BytesDtype 1, items = [65, 66, 67, 68]\<rparr>)
      else if name = ''s/none'' then Inr None
      else Inl (ExternalError ''no pixel data''))"

definition example_env :: "(string, string list) env" where
  "example_env =
     \<lparr>files = example_files,
      dcmread = (\<lambda>req. if fp req = ''s/bad'' then Inl (ExternalError ''InvalidDicomError'')
                       else Inr (fp req)),
      pixel_array = example_pixels,
      groupingTags = [''SeriesInstanceUID'', ''ImageOrientationPatient'',
                      ''ImagePositionPatient''],
      fromPyDicom = example_metadata,
      allTags = (\<lambda>d. d),
      truthy = (\<lambda>d. True),
      sort_filenames = (\<lambda>xs. xs)\<rparr>"




definition text_stack :: dicom_stack where
  "text_stack = [example_item ''s/txt'' 1 ''A'' 0]"

definition two_series :: filenames_arg where
  "two_series = Many [PlainName ''a1'', PlainName ''b1'', PlainName ''a2'']"



definition even_stack :: dicom_stack where
  "even_stack = [example_item ''s/e0'' 1 ''E'' 0, example_item ''s/e1'' 1 ''E'' 2,
                 example_item ''s/e2'' 1 ''E'' 4, example_item ''s/e3'' 1 ''E'' 6]"

definition outlier_stack :: dicom_stack where
  "outlier_stack = [example_item ''s/e0'' 1 ''E'' 0, example_item ''s/e1'' 1 ''E'' 100,
                    example_item ''s/e2'' 1 ''E'' 4, example_item ''s/e3'' 1 ''E'' 6]"

definition long_outlier_stack :: dicom_stack where
  "long_outlier_stack =
     [example_item ''s/e0'' 1 ''E'' 0, example_item ''s/e1'' 1 ''E'' 2,
      example_item ''s/e2'' 1 ''E'' 50, example_item ''s/e3'' 1 ''E'' 6,
      example_item ''s/e4'' 1 ''E'' 8, example_item ''s/e5'' 1 ''E'' 10]"





section \<open>Properties of the effect layer\<close>

lemma bind_Inr [simp]: "bind (es, Inr x) f = (case f x of (es', r) \<Rightarrow> (es @ es', r))"
  by (simp add: bind_def)

lemma bind_Inl [simp]: "bind (es, Inl e) f = (es, Inl e)"
  by (simp add: bind_def)

lemma bind_ret [simp]: "bind (ret x) f = f x"
  by (simp add: ret_def split: prod.splits)

lemma bind_raise [simp]: "bind (raise e) f = raise e"
  by (simp add: raise_def)

lemma snd_bind: "snd (bind m f) = (case snd m of Inl e \<Rightarrow> Inl e | Inr x \<Rightarrow> snd (f x))"
  by (cases m) (auto simp: bind_def split: sum.splits prod.splits)

lemma fst_bind: "fst (bind m f) = (case snd m of Inl e \<Rightarrow> fst m | Inr x \<Rightarrow> fst m @ fst (f x))"
  by (cases m) (auto simp: bind_def split: sum.splits prod.splits)

lemma seq_emit: "seq (emit ev) k = (case k of (es, r) \<Rightarrow> (ev # es, r))"
  by (cases k) (simp add: seq_def emit_def)

lemma seq_ret [simp]: "seq (ret u) k = k"
  by (simp add: seq_def)

lemma snd_seq_emit [simp]: "snd (seq (emit ev) k) = snd k"
  by (cases k) (simp add: seq_emit)

lemma fst_seq_emit [simp]: "fst (seq (emit ev) k) = ev # fst k"
  by (cases k) (simp add: seq_emit)

lemma snd_ret [simp]: "snd (ret x) = Inr x"
  by (simp add: ret_def)

lemma fst_ret [simp]: "fst (ret x) = []"
  by (simp add: ret_def)

lemma snd_raise [simp]: "snd (raise e) = Inl e"
  by (simp add: raise_def)

lemma fst_raise [simp]: "fst (raise e) = []"
  by (simp add: raise_def)

lemma snd_lift [simp]: "snd (lift r) = r"
  by (simp add: lift_def)

lemma fst_lift [simp]: "fst (lift r) = []"
  by (simp add: lift_def)

lemma read_dicom_image_events:
  "fst (read_dicom_image env file_name) =
     [DcmRead \<lparr>fp = file_name, stop_before_pixels = False, specific_tags = None\<rparr>]"
  by (simp add: read_dicom_image_def Let_def fst_bind snd_bind split: sum.splits)

section \<open>Properties of the slice loop\<close>



lemma store_slice_events: "fst (store_slice spp w k v) = []"
  by (simp add: store_slice_def assign_plane_def split: option.splits)


lemma py_round_ratio_events: "fst (py_round_ratio a b) = []"
  by (simp add: py_round_ratio_def Let_def)


lemma stack_get_events: "fst (stack_get xs i) = []"
  by (simp add: stack_get_def)



lemma dtype_eq_np_char [simp]: "dtype_eq d np_char = False"
  by (simp add: dtype_eq_def np_char_def)


lemma pixel_reads_append: "pixel_reads (xs @ ys) = pixel_reads xs @ pixel_reads ys"
  by (induction xs rule: pixel_reads.induct) auto


lemma load_images_events_after_first:
  assumes "stack \<noteq> []"
    and "snd (read_dicom_image env (filename (stack ! 0))) = Inr (Some a0)"
  shows "pixel_reads (fst (load_images_from_stack env stack)) =
           filename (stack ! 0) #
           (if list_ex (\<lambda>n. n < 0) (image_size_of stack) then []
            else case snd (store_slice (SamplesPerPixel (metadata (stack ! 0)))
                             \<lparr>raw_image = Some (fresh_buffer stack (dtype a0))\<rparr> 0 (Some a0)) of
                   Inl e \<Rightarrow> []
                 | Inr w1 \<Rightarrow>
                     pixel_reads (fst (remaining_slices env stack
                        (SamplesPerPixel (metadata (stack ! 0))) (length stack)
                        [1..<length stack] w1)))"
  using assms
  by (auto simp: load_images_from_stack_def Let_def snd_bind fst_bind stack_get_def
        np_zeros_def CoreWrapper_def image_size_of_def fresh_buffer_def
        read_dicom_image_events store_slice_events pixel_reads_append split: sum.splits)

lemmas run_eval = load_images_from_stack_def Let_def stack_get_def read_dicom_image_def
  seq_emit lift_def ret_def raise_def np_zeros_def store_slice_def assign_plane_def
  can_assign_def plane_shape_def py_round_ratio_def CoreWrapper_def
  example_env_def example_pixels_def example_item_def

section \<open>The signature check\<close>

text \<open>
  C4. For a file that can be opened, \<open>is_dicom\<close> opens it, raises nothing and answers
  \<^verbatim>\<open>True\<close> exactly when the file has four bytes at offset 128 and they are \<^verbatim>\<open>DICM\<close>. A
  file shorter than 132 bytes, the empty stub among them, is answered with \<^verbatim>\<open>False\<close>.
\<close>

theorem is_dicom_signature:
  assumes "files env file_name = Some content"
  shows "is_dicom env file_name =
           ([OpenFile file_name],
            Inr (132 \<le> length content \<and> content ! 128 = CHR ''D'' \<and> content ! 129 = CHR ''I''
                 \<and> content ! 130 = CHR ''C'' \<and> content ! 131 = CHR ''M''))
         \<and> (length content < 132 \<longrightarrow> snd (is_dicom env file_name) = Inr False)"
proof -
  have eq: "(take 4 (drop 128 content) = ''DICM'') =
              (132 \<le> length content \<and> content ! 128 = CHR ''D'' \<and> content ! 129 = CHR ''I''
               \<and> content ! 130 = CHR ''C'' \<and> content ! 131 = CHR ''M'')"
    by (auto simp: list_eq_iff_nth_eq numeral_eq_Suc less_Suc_eq_0_disj)
  have "is_dicom env file_name =
           ([OpenFile file_name],
            Inr (132 \<le> length content \<and> content ! 128 = CHR ''D'' \<and> content ! 129 = CHR ''I''
                 \<and> content ! 130 = CHR ''C'' \<and> content ! 131 = CHR ''M''))"
    using assms eq by (simp add: is_dicom_def Let_def ret_def seq_emit)
  then show ?thesis
    by simp
qed

theorem is_dicom_signature_witness:
  "files example_env ''s/a1'' = Some dicom_bytes
   \<and> is_dicom example_env ''s/a1'' = ([OpenFile ''s/a1''], Inr True)
   \<and> files example_env ''s/stub'' = Some []
   \<and> length ([] :: bytes) < 132
   \<and> snd (is_dicom example_env ''s/stub'') = Inr False"
proof -
  have a: "files example_env ''s/a1'' = Some dicom_bytes"
    by (simp add: example_env_def example_files_def)
  have b: "files example_env ''s/stub'' = Some []"
    by (simp add: example_env_def example_files_def)
  have c: "dicom_bytes ! 128 = CHR ''D''" "dicom_bytes ! 129 = CHR ''I''"
    "dicom_bytes ! 130 = CHR ''C''" "dicom_bytes ! 131 = CHR ''M''" "length dicom_bytes = 136"
    by (simp_all add: dicom_bytes_def nth_append)
  show ?thesis
    using is_dicom_signature [OF a] is_dicom_signature [OF b] a b c by simp
qed

section \<open>Reading tags\<close>

text \<open>
  C10. When \<open>read_dicom_tags\<close> is given a dictionary that counts as true, the one request
  it sends to the reader asks for the dictionary's \<open>allTags\<close>, whatever
  \<open>specific_tags\<close> the caller passed, and the reader's answer is returned as it is.
\<close>

theorem read_dicom_tags_dictionary_wins:
  assumes "truthy env d"
  shows "read_dicom_tags env file_name (Some d) tags0 =
           ([DcmRead \<lparr>fp = file_name, stop_before_pixels = True,
                       specific_tags = Some (allTags env d)\<rparr>],
            dcmread env \<lparr>fp = file_name, stop_before_pixels = True,
                          specific_tags = Some (allTags env d)\<rparr>)"
  using assms by (simp add: read_dicom_tags_def Let_def lift_def seq_emit)

theorem read_dicom_tags_dictionary_wins_witness:
  "truthy example_env [''PatientName'']
   \<and> read_dicom_tags example_env ''s/a1'' (Some [''PatientName'']) (Some [''Rows'']) =
       ([DcmRead \<lparr>fp = ''s/a1'', stop_before_pixels = True,
                   specific_tags = Some [''PatientName'']\<rparr>], Inr ''s/a1'')"
proof -
  have t: "truthy example_env [''PatientName'']"
    by (simp add: example_env_def)
  show ?thesis
    using read_dicom_tags_dictionary_wins [OF t, of "''s/a1''" "Some [''Rows'']"] t
    by (simp add: example_env_def)
qed

section \<open>Assembling the volume\<close>

text \<open>
  C2. When the decoder yields nothing for slice 0, \<open>load_images_from_stack\<close> returns the
  wrapper as it was created, with no buffer, and raises nothing. Its effects are the two
  progress calls and the single decoder call for slice 0: nothing is allocated and no
  other slice is decoded.
\<close>

theorem first_slice_nothing_returns_empty:
  assumes "stack \<noteq> []"
    and "snd (read_dicom_image env (filename (stack ! 0))) = Inr None"
  shows "load_images_from_stack env stack =
           ([ShowProgress ''Reading pixel data'', UpdateProgress 0,
             DcmRead \<lparr>fp = filename (stack ! 0), stop_before_pixels = False,
                       specific_tags = None\<rparr>],
            Inr \<lparr>raw_image = None\<rparr>)"
proof -
  have "read_dicom_image env (filename (stack ! 0)) =
          ([DcmRead \<lparr>fp = filename (stack ! 0), stop_before_pixels = False,
                       specific_tags = None\<rparr>], Inr None)"
    using assms(2) read_dicom_image_events [of env "filename (stack ! 0)"]
    by (cases "read_dicom_image env (filename (stack ! 0))") simp
  then show ?thesis
    using assms(1)
    by (simp add: load_images_from_stack_def Let_def stack_get_def CoreWrapper_def ret_def
          seq_emit)
qed

theorem first_slice_nothing_returns_empty_witness:
  "[example_item ''s/none'' 1 ''A'' 0, example_item ''s/a1'' 1 ''A'' 2] \<noteq> []
   \<and> snd (read_dicom_image example_env ''s/none'') = Inr None
   \<and> load_images_from_stack example_env
       [example_item ''s/none'' 1 ''A'' 0, example_item ''s/a1'' 1 ''A'' 2] =
       ([ShowProgress ''Reading pixel data'', UpdateProgress 0,
         DcmRead \<lparr>fp = ''s/none'', stop_before_pixels = False, specific_tags = None\<rparr>],
        Inr \<lparr>raw_image = None\<rparr>)"
proof -
  have n: "snd (read_dicom_image example_env ''s/none'') = Inr None"
    by (simp add: read_dicom_image_def Let_def example_env_def example_pixels_def lift_def
          seq_emit)
  have f: "filename ([example_item ''s/none'' 1 ''A'' 0, example_item ''s/a1'' 1 ''A'' 2] ! 0)
             = ''s/none''"
    by (simp add: example_item_def)
  show ?thesis
    using first_slice_nothing_returns_empty
      [of "[example_item ''s/none'' 1 ''A'' 0, example_item ''s/a1'' 1 ''A'' 2]" example_env]
      n f
    by simp
qed






text \<open>
  C7. The test \<^verbatim>\<open>data_type == np.char\<close> compares the dtype with a module and never holds.
  For a first slice of a text dtype (one-byte strings) no message is emitted and the
  buffer is allocated with the text dtype, not with \<^verbatim>\<open>int8\<close>.
\<close>

theorem text_dtype_is_kept:
  "load_images_from_stack example_env text_stack =
   ([ShowProgress ''Reading pixel data'', UpdateProgress 0,
     DcmRead \<lparr>fp = ''s/txt'', stop_before_pixels = False, specific_tags = None\<rparr>,
     NpZeros [2, 2, 1] (BytesDtype 1), CompleteProgress],
    Inr \<lparr>raw_image = Some \<lparr>buf_shape = [2, 2, 1], buf_dtype = BytesDtype 1,
          planes = [Written \<lparr>shape = [2, 2], dtype = BytesDtype 1,
                             items = [65, 66, 67, 68]\<rparr>]\<rparr>\<rparr>)"
  by (simp add: run_eval text_stack_def dtype_eq_def np_char_def)

section \<open>The metadata pass\<close>

lemmas meta_eval = load_metadata_from_dicom_files_def metadata_pass.simps Let_def
  normalise_filenames_def combined_name_def join_def is_dicom_def read_grouping_metadata_def
  seq_emit lift_def ret_def raise_def py_round_ratio_def DicomGrouper_def
  example_env_def example_files_def example_metadata_def example_item_def dicom_bytes_def

text \<open>
  C5. The metadata pass tests every candidate with \<open>is_dicom\<close> alone. A file that
  fails the signature check (\<^verbatim>\<open>s/notes\<close>) is excluded before any metadata is read, a
  warning is emitted and the pass goes on. A file named \<^verbatim>\<open>DICOMDIR\<close> that carries the
  signature is not excluded: its metadata are read and it is added to the grouper without
  a warning, although \<open>is_dicom_image_file\<close> of the same module answers \<^verbatim>\<open>False\<close> for
  it.
\<close>

theorem directory_index_is_not_excluded:
  "load_metadata_from_dicom_files example_env ''s''
     (Many [PlainName ''notes'', PlainName ''DICOMDIR'']) =
   ([ShowProgress ''Reading image metadata'', UpdateProgress 0,
     OpenFile ''s/notes'', not_a_dicom_file_warning ''s/notes'', UpdateProgress 0,
     OpenFile ''s/DICOMDIR'',
     DcmRead \<lparr>fp = ''s/DICOMDIR'', stop_before_pixels = True,
               specific_tags = Some [''SeriesInstanceUID'', ''ImageOrientationPatient'',
                                     ''ImagePositionPatient'']\<rparr>,
     UpdateProgress 50, CompleteProgress],
    Inr [(''D'', [example_item ''s/DICOMDIR'' 1 ''D'' 0])])
   \<and> is_dicom_image_file example_env ''s'' ''DICOMDIR'' = ([], Inr False)"
  by (simp add: meta_eval is_dicom_image_file_def)

section \<open>The pipeline\<close>

lemma warning_codes_append: "warning_codes (xs @ ys) = warning_codes xs @ warning_codes ys"
  by (induction xs rule: warning_codes.induct) auto

lemma warning_codes_bind:
  "warning_codes (fst (bind m f)) =
     warning_codes (fst m) @
     (case snd m of Inl e \<Rightarrow> [] | Inr x \<Rightarrow> warning_codes (fst (f x)))"
  by (simp add: fst_bind warning_codes_append split: sum.splits)

lemma pixel_reads_bind:
  "pixel_reads (fst (bind m f)) =
     pixel_reads (fst m) @
     (case snd m of Inl e \<Rightarrow> [] | Inr x \<Rightarrow> pixel_reads (fst (f x)))"
  by (simp add: fst_bind pixel_reads_append split: sum.splits)

lemma remaining_slices_no_warning:
  "warning_codes (fst (remaining_slices env stack spp n idxs w)) = []"
  by (induction idxs arbitrary: w)
     (auto simp: warning_codes_bind stack_get_def read_dicom_image_events store_slice_events
        py_round_ratio_events split: sum.splits)

lemma load_images_no_warning:
  "warning_codes (fst (load_images_from_stack env stack)) = []"
  by (auto simp: load_images_from_stack_def Let_def warning_codes_bind stack_get_def
        read_dicom_image_events store_slice_events np_zeros_def remaining_slices_no_warning
        split: sum.splits option.splits)

lemma remaining_slices_pixel_reads:
  "\<forall>i \<in> set idxs. i < length stack \<Longrightarrow>
   set (pixel_reads (fst (remaining_slices env stack spp n idxs w))) \<subseteq> filename ` set stack"
  by (induction idxs arbitrary: w)
     (auto simp: pixel_reads_bind stack_get_def read_dicom_image_events store_slice_events
        py_round_ratio_events split: sum.splits)

lemma load_images_pixel_reads:
  "set (pixel_reads (fst (load_images_from_stack env stack))) \<subseteq> filename ` set stack"
proof (cases "stack = []")
  case True
  then show ?thesis
    by (simp add: load_images_from_stack_def Let_def stack_get_def)
next
  case ne: False
  let ?f0 = "filename (stack ! 0)"
  have f0: "?f0 \<in> filename ` set stack" using ne by simp
  have short: "pixel_reads (fst (load_images_from_stack env stack)) = [?f0]"
    if "snd (read_dicom_image env ?f0) = Inl e \<or> snd (read_dicom_image env ?f0) = Inr None"
    for e
    using that ne
    by (auto simp: load_images_from_stack_def Let_def snd_bind fst_bind stack_get_def
          read_dicom_image_events)
  show ?thesis
  proof (cases "snd (read_dicom_image env ?f0)")
    case (Inl e)
    with short [of e] f0 show ?thesis by simp
  next
    case (Inr first)
    show ?thesis
    proof (cases first)
      case None
      with Inr short f0 show ?thesis by simp
    next
      case (Some a0)
      with Inr have a0: "snd (read_dicom_image env ?f0) = Inr (Some a0)" by simp
      have "\<forall>i \<in> set [1..<length stack]. i < length stack" by simp
      then have r: "\<forall>w. set (pixel_reads (fst (remaining_slices env stack
                       (SamplesPerPixel (metadata (stack ! 0))) (length stack)
                       [1..<length stack] w))) \<subseteq> filename ` set stack"
        using remaining_slices_pixel_reads by blast
      show ?thesis
        unfolding load_images_events_after_first [OF ne a0]
        using f0 r by (auto split: sum.splits simp del: One_nat_def)
    qed
  qed
qed

text \<open>
  The pixel reads of a run are the filenames of an initial segment of the stack, in order:
  the run has decoded slice \<open>i\<close> exactly when it has made more than \<open>i\<close> reads.
\<close>

lemma remaining_slices_reads_in_order:
  assumes "\<forall>i \<in> set idxs. i < length stack"
  shows "\<exists>k. pixel_reads (fst (remaining_slices env stack spp n idxs w)) =
           take k (map (\<lambda>i. filename (stack ! i)) idxs)"
  using assms
proof (induction idxs arbitrary: w)
  case Nil
  then show ?case by simp
next
  case (Cons i idxs)
  have short: "\<exists>k. [filename (stack ! i)] =
                 take k (map (\<lambda>i. filename (stack ! i)) (i # idxs))"
    by (rule exI [of _ 1]) simp
  have long: "\<exists>k. filename (stack ! i) # pixel_reads (fst (remaining_slices env stack spp n idxs w'))
                = take k (map (\<lambda>i. filename (stack ! i)) (i # idxs))" for w'
  proof -
    from Cons obtain k where
      "pixel_reads (fst (remaining_slices env stack spp n idxs w')) =
         take k (map (\<lambda>i. filename (stack ! i)) idxs)"
      by fastforce
    then show ?thesis by (intro exI [of _ "Suc k"]) simp
  qed
  show ?case
    using Cons.prems short long
    by (auto simp: pixel_reads_bind stack_get_def read_dicom_image_events store_slice_events
          py_round_ratio_events split: sum.splits)
qed

lemma tail_by_index: "map (\<lambda>i. f (xs ! i)) [1..<length xs] = tl (map f xs)"
  by (rule nth_equalityI) (simp_all add: nth_tl)

lemma load_images_reads_in_order:
  "\<exists>k. pixel_reads (fst (load_images_from_stack env stack)) = take k (map filename stack)"
proof (cases "stack = []")
  case True
  then show ?thesis
    by (simp add: load_images_from_stack_def Let_def stack_get_def)
next
  case ne: False
  let ?f0 = "filename (stack ! 0)"
  have one: "[?f0] = take 1 (map filename stack)"
    using ne by (cases stack) simp_all
  have short: "pixel_reads (fst (load_images_from_stack env stack)) = [?f0]"
    if "snd (read_dicom_image env ?f0) = Inl e \<or> snd (read_dicom_image env ?f0) = Inr None"
    for e
    using that ne
    by (auto simp: load_images_from_stack_def Let_def snd_bind fst_bind stack_get_def
          read_dicom_image_events)
  show ?thesis
  proof (cases "snd (read_dicom_image env ?f0)")
    case (Inl e)
    with short [of e] one show ?thesis by metis
  next
    case (Inr first)
    show ?thesis
    proof (cases first)
      case None
      with Inr short one show ?thesis by metis
    next
      case (Some a0)
      with Inr have a0: "snd (read_dicom_image env ?f0) = Inr (Some a0)" by simp
      have more: "\<exists>k. ?f0 # pixel_reads (fst (remaining_slices env stack spp n
                        [1..<length stack] w)) = take k (map filename stack)" for spp n w
      proof -
        have "\<forall>i \<in> set [1..<length stack]. i < length stack" by simp
        from remaining_slices_reads_in_order [OF this] obtain k where
          "pixel_reads (fst (remaining_slices env stack spp n [1..<length stack] w)) =
             take k (tl (map filename stack))"
          unfolding tail_by_index by blast
        then show ?thesis
          using ne by (intro exI [of _ "Suc k"]) (cases stack, simp_all)
      qed
      show ?thesis
        unfolding load_images_events_after_first [OF ne a0]
        using one more by (auto split: sum.splits simp del: One_nat_def)
    qed
  qed
qed

lemma is_dicom_events: "fst (is_dicom env f) = [OpenFile f]"
  by (simp add: is_dicom_def Let_def split: option.splits)

lemma read_grouping_metadata_events:
  "fst (read_grouping_metadata env f) =
     [DcmRead \<lparr>fp = f, stop_before_pixels = True, specific_tags = Some (groupingTags env)\<rparr>]"
  by (simp add: read_grouping_metadata_def Let_def fst_bind split: sum.splits)

lemma metadata_pass_codes:
  "set (warning_codes (fst (metadata_pass env image_path n fs k g)))
     \<subseteq> {''load_metadata_from_dicom_files:NotADicomFile''}"
  by (induction fs arbitrary: k g)
     (auto simp: Let_def warning_codes_bind is_dicom_events read_grouping_metadata_events
        py_round_ratio_events not_a_dicom_file_warning_def split: sum.splits if_splits)

lemma metadata_pass_pixel_reads:
  "pixel_reads (fst (metadata_pass env image_path n fs k g)) = []"
  by (induction fs arbitrary: k g)
     (auto simp: Let_def pixel_reads_bind is_dicom_events read_grouping_metadata_events
        py_round_ratio_events not_a_dicom_file_warning_def split: sum.splits if_splits)

lemma load_metadata_codes:
  "set (warning_codes (fst (load_metadata_from_dicom_files env image_path fns)))
     \<subseteq> {''load_metadata_from_dicom_files:NotADicomFile''}"
  using metadata_pass_codes [THEN subsetD]
  by (fastforce simp: load_metadata_from_dicom_files_def Let_def warning_codes_bind
        split: sum.splits)

lemma load_metadata_pixel_reads:
  "pixel_reads (fst (load_metadata_from_dicom_files env image_path fns)) = []"
  by (auto simp: load_metadata_from_dicom_files_def Let_def pixel_reads_bind
        metadata_pass_pixel_reads split: sum.splits)

lemma load_metadata_OneStr:
  "load_metadata_from_dicom_files env image_path
     (case fns of OneStr s \<Rightarrow> Many [PlainName s] | _ \<Rightarrow> fns) =
   load_metadata_from_dicom_files env image_path fns"
  by (cases fns) (simp_all add: load_metadata_from_dicom_files_def normalise_filenames_def)

lemma sort_and_get_parameters_codes:
  "set (warning_codes (fst (sort_and_get_parameters stack)))
     \<subseteq> {''DicomStack:InconsistentOrientation'', ''DicomStack:MissingPositions''}"
  by (cases stack) (auto simp: sort_and_get_parameters_def Let_def simp del: sort_key_simps)

lemma sort_and_get_parameters_pixel_reads:
  "pixel_reads (fst (sort_and_get_parameters stack)) = []"
  by (cases stack) (auto simp: sort_and_get_parameters_def Let_def simp del: sort_key_simps)

lemma sort_and_get_parameters_result:
  "\<exists>sorted_stack th og ps. snd (sort_and_get_parameters stack) = Inr (sorted_stack, th, og, ps)
      \<and> mset sorted_stack = mset stack"
  by (cases stack) (auto simp: sort_and_get_parameters_def Let_def simp del: sort_key_simps)

lemma largest_of_properties:
  "(largest_of best gs = best \<or> largest_of best gs \<in> snd ` set gs)
   \<and> length best \<le> length (largest_of best gs)
   \<and> (\<forall>grp \<in> set gs. length (snd grp) \<le> length (largest_of best gs))"
proof (induction best gs rule: largest_of.induct)
  case (1 best)
  then show ?case by simp
next
  case (2 best k members gs)
  then show ?case by (auto split: if_splits)
qed

lemma count_list_0: "x \<notin> set xs \<Longrightarrow> count_list xs x = 0"
  by (induction xs) auto

lemma count_list_app: "count_list (xs @ ys) x = count_list xs x + count_list ys x"
  by (induction xs) auto

lemma seq_Inr: "seq (es, Inr u) k = (case k of (es', r) \<Rightarrow> (es @ es', r))"
  by (simp add: seq_def)

lemmas geometry_eval = sort_and_get_parameters_def slice_axis_def cross_def dot_def
  axis_coordinate_def has_position_def same_orientation_def slice_thickness_of_def
  consecutive_differences_def median_def

lemmas main_eval = load_main_image_from_dicom_files_def largest_stack_def
  number_of_groups_def

lemma two_series_grouper:
  "snd (load_metadata_from_dicom_files example_env ''s'' two_series) =
     Inr [(''A'', [example_item ''s/a1'' 1 ''A'' 4, example_item ''s/a2'' 1 ''A'' 0]),
          (''B'', [example_item ''s/b1'' 1 ''B'' 0])]"
  by (simp add: meta_eval two_series_def)

lemma two_series_result:
  "snd (load_main_image_from_dicom_files example_env ''s'' two_series) =
     Inr (\<lparr>raw_image = Some \<lparr>buf_shape = [2, 2, 2], buf_dtype = Int16,
            planes = [Written \<lparr>shape = [2, 2], dtype = Int16, items = [1, 2, 3, 4]\<rparr>,
                      Written \<lparr>shape = [2, 2], dtype = Int16, items = [1, 2, 3, 4]\<rparr>]\<rparr>\<rparr>,
          metadata (example_item ''s/a2'' 1 ''A'' 0), Some 4, Some (0, 0, 0), [0, 4])"
  by (simp add: main_eval meta_eval geometry_eval run_eval two_series_def
        multiple_groupings_warning_def seq_Inr numeral_2_eq_2)

lemma one_file_grouper:
  "snd (load_metadata_from_dicom_files example_env ''s'' (OneStr ''a1'')) =
     Inr [(''A'', [example_item ''s/a1'' 1 ''A'' 4])]"
  by (simp add: meta_eval)

text \<open>
  C6. Let \<open>g\<close> be the grouper the metadata pass produced. Among the warnings emitted by
  \<open>load_main_image_from_dicom_files\<close> the code of the multiple-groupings warning occurs
  once when \<open>g\<close> has more than one group and not at all otherwise. Pixel data are read
  only from files of one group \<open>main\<close>, which has the most members, and a volume that is
  returned was assembled by \<open>load_images_from_stack\<close> from the slices of \<open>main\<close> in the
  order the reconstruction gave them.
\<close>

theorem multiple_groups_warned_once:
  assumes "snd (load_metadata_from_dicom_files env image_path filenames) = Inr g"
  shows "count_list
           (warning_codes (fst (load_main_image_from_dicom_files env image_path filenames)))
           ''load_main_image_from_dicom_files:MultipleGroupings'' =
           (if 1 < number_of_groups g then 1 else 0)
       \<and> (\<exists>main. (g = [] \<or> main \<in> snd ` set g \<and> (\<forall>grp \<in> set g. length (snd grp) \<le> length main))
             \<and> set (pixel_reads (fst (load_main_image_from_dicom_files env image_path filenames)))
                 \<subseteq> filename ` set main
             \<and> (\<forall>w rep th og ps.
                   snd (load_main_image_from_dicom_files env image_path filenames) =
                     Inr (w, rep, th, og, ps) \<longrightarrow>
                   (\<exists>sorted_group. mset sorted_group = mset main
                      \<and> snd (load_images_from_stack env sorted_group) = Inr w)))"
proof -
  let ?MG = "''load_main_image_from_dicom_files:MultipleGroupings''"
  let ?M = "load_metadata_from_dicom_files env image_path filenames"
  let ?L = "load_main_image_from_dicom_files env image_path filenames"
  let ?W = "if 1 < number_of_groups g then [multiple_groupings_warning] else []"
  have m0: "count_list (warning_codes (fst ?M)) ?MG = 0"
    using load_metadata_codes [of env image_path filenames] by (intro count_list_0) auto
  have mp: "pixel_reads (fst ?M) = []"
    by (rule load_metadata_pixel_reads)
  have w0: "count_list (warning_codes ?W) ?MG = (if 1 < number_of_groups g then 1 else 0)"
    by (simp add: multiple_groupings_warning_def)
  have wp: "pixel_reads ?W = []"
    by (simp add: multiple_groupings_warning_def)
  show ?thesis
  proof (cases g)
    case Nil
    have f: "fst ?L = fst ?M @ ?W" and s: "snd ?L = Inl ValueError"
      using assms Nil
      by (simp_all add: load_main_image_from_dicom_files_def Let_def load_metadata_OneStr
            fst_bind snd_bind largest_stack_def number_of_groups_def)
    show ?thesis
      using Nil m0 mp w0 wp
      by (simp add: f s warning_codes_append pixel_reads_append count_list_app)
  next
    case (Cons grp0 gs)
    obtain k0 members0 where grp0: "grp0 = (k0, members0)" by (cases grp0)
    let ?main = "largest_of members0 gs"
    obtain sorted_group th og ps where
      sg: "snd (sort_and_get_parameters ?main) = Inr (sorted_group, th, og, ps)"
      and ms: "mset sorted_group = mset ?main"
      using sort_and_get_parameters_result [of ?main] by blast
    let ?es = "fst (sort_and_get_parameters ?main)"
    let ?G = "stack_get (map metadata sorted_group) 0"
    have f: "fst ?L = fst ?M @ ?W @ ?es @
               (case snd ?G of Inl e \<Rightarrow> []
                | Inr rep \<Rightarrow> fst (load_images_from_stack env sorted_group))"
      using assms Cons grp0 sg
      by (auto simp: load_main_image_from_dicom_files_def Let_def load_metadata_OneStr
            fst_bind snd_bind largest_stack_def stack_get_def split: sum.splits)
    have s: "snd ?L =
               (case snd ?G of Inl e \<Rightarrow> Inl e
                | Inr rep \<Rightarrow> (case snd (load_images_from_stack env sorted_group) of
                               Inl e \<Rightarrow> Inl e
                             | Inr w \<Rightarrow> Inr (w, rep, th, og, ps)))"
      using assms Cons grp0 sg
      by (auto simp: load_main_image_from_dicom_files_def Let_def load_metadata_OneStr
            snd_bind largest_stack_def stack_get_def split: sum.splits)
    have e0: "count_list (warning_codes ?es) ?MG = 0"
      using sort_and_get_parameters_codes [of ?main] by (intro count_list_0) auto
    have ep: "pixel_reads ?es = []"
      by (rule sort_and_get_parameters_pixel_reads)
    have c: "count_list (warning_codes (fst ?L)) ?MG = (if 1 < number_of_groups g then 1 else 0)"
      using m0 w0 e0
      by (simp add: f warning_codes_append count_list_app load_images_no_warning
            split: sum.splits)
    have lg: "?main \<in> snd ` set g \<and> (\<forall>grp \<in> set g. length (snd grp) \<le> length ?main)"
      using largest_of_properties [of members0 gs] Cons grp0 by auto
    have "set (pixel_reads (fst (load_images_from_stack env sorted_group)))
            \<subseteq> filename ` set ?main"
      using load_images_pixel_reads [of env sorted_group] ms mset_eq_setD by blast
    then have pr: "set (pixel_reads (fst ?L)) \<subseteq> filename ` set ?main"
      using mp wp ep by (auto simp: f pixel_reads_append split: sum.splits)
    have r: "\<forall>w rep th' og' ps'. snd ?L = Inr (w, rep, th', og', ps') \<longrightarrow>
               (\<exists>sorted_group. mset sorted_group = mset ?main
                  \<and> snd (load_images_from_stack env sorted_group) = Inr w)"
      using ms by (auto simp: s split: sum.splits)
    show ?thesis
      using c lg pr r by blast
  qed
qed

theorem multiple_groups_warned_once_witness:
  "snd (load_metadata_from_dicom_files example_env ''s'' two_series) =
     Inr [(''A'', [example_item ''s/a1'' 1 ''A'' 4, example_item ''s/a2'' 1 ''A'' 0]),
          (''B'', [example_item ''s/b1'' 1 ''B'' 0])]
   \<and> count_list
         (warning_codes (fst (load_main_image_from_dicom_files example_env ''s'' two_series)))
         ''load_main_image_from_dicom_files:MultipleGroupings'' = 1
   \<and> (\<exists>main sorted_group w rep th og ps.
         length main = 2
         \<and> set (pixel_reads (fst (load_main_image_from_dicom_files example_env ''s''
                                   two_series))) \<subseteq> filename ` set main
         \<and> snd (load_main_image_from_dicom_files example_env ''s'' two_series) =
             Inr (w, rep, th, og, ps)
         \<and> mset sorted_group = mset main
         \<and> snd (load_images_from_stack example_env sorted_group) = Inr w)
   \<and> snd (load_metadata_from_dicom_files example_env ''s'' (OneStr ''a1'')) =
       Inr [(''A'', [example_item ''s/a1'' 1 ''A'' 4])]
   \<and> count_list
         (warning_codes (fst (load_main_image_from_dicom_files example_env ''s''
                                (OneStr ''a1''))))
         ''load_main_image_from_dicom_files:MultipleGroupings'' = 0"
proof -
  note two = multiple_groups_warned_once [OF two_series_grouper]
  note one = multiple_groups_warned_once [OF one_file_grouper]
  let ?G = "[(''A'', [example_item ''s/a1'' 1 ''A'' 4, example_item ''s/a2'' 1 ''A'' 0]),
             (''B'', [example_item ''s/b1'' 1 ''B'' 0])]"
  from two [THEN conjunct2] obtain main where
    m0: "?G = [] \<or> main \<in> snd ` set ?G \<and> (\<forall>grp \<in> set ?G. length (snd grp) \<le> length main)"
    and p: "set (pixel_reads (fst (load_main_image_from_dicom_files example_env ''s''
                                   two_series))) \<subseteq> filename ` set main"
    and r: "\<forall>w rep th og ps.
              snd (load_main_image_from_dicom_files example_env ''s'' two_series) =
                Inr (w, rep, th, og, ps) \<longrightarrow>
              (\<exists>sorted_group. mset sorted_group = mset main
                 \<and> snd (load_images_from_stack example_env sorted_group) = Inr w)"
    by blast
  from m0 have m: "main \<in> {[example_item ''s/a1'' 1 ''A'' 4, example_item ''s/a2'' 1 ''A'' 0],
                 [example_item ''s/b1'' 1 ''B'' 0]}"
      "2 \<le> length main"
    by simp_all
  from m have len: "length main = 2" by auto
  from r two_series_result obtain sorted_group w rep th og ps where
    "snd (load_main_image_from_dicom_files example_env ''s'' two_series) =
       Inr (w, rep, th, og, ps)"
    "mset sorted_group = mset main"
    "snd (load_images_from_stack example_env sorted_group) = Inr w"
    by blast
  with len p have ex: "\<exists>main sorted_group w rep th og ps.
         length main = 2
         \<and> set (pixel_reads (fst (load_main_image_from_dicom_files example_env ''s''
                                   two_series))) \<subseteq> filename ` set main
         \<and> snd (load_main_image_from_dicom_files example_env ''s'' two_series) =
             Inr (w, rep, th, og, ps)
         \<and> mset sorted_group = mset main
         \<and> snd (load_images_from_stack example_env sorted_group) = Inr w"
    by blast
  show ?thesis
    using two one ex two_series_grouper one_file_grouper
    by (simp add: number_of_groups_def)
qed

section \<open>Grouping and ordering\<close>



lemma map_sort_key: "map f (sort_key f xs) = sort (map f xs)"
  by (rule properties_for_sort [symmetric]) simp_all

lemma sort_and_get_parameters_positions:
  assumes "stack \<noteq> []" and "list_all has_position stack"
  shows "\<exists>sorted_stack og.
           snd (sort_and_get_parameters stack) =
             Inr (sorted_stack,
                  slice_thickness_of
                    (sort (map (axis_coordinate (slice_axis (metadata (hd stack)))) stack)),
                  og,
                  sort (map (axis_coordinate (slice_axis (metadata (hd stack)))) stack))"
proof -
  let ?c = "axis_coordinate (slice_axis (metadata (hd stack)))"
  from assms(1) obtain a rest where st: "stack = a # rest" by (cases stack) auto
  have "snd (sort_and_get_parameters stack) =
          Inr (sort_key ?c stack, slice_thickness_of (map ?c (sort_key ?c stack)),
               position (metadata (hd (sort_key ?c stack))), map ?c (sort_key ?c stack))"
    using assms(2) unfolding st
    by (simp add: sort_and_get_parameters_def Let_def del: sort_key_simps)
  then show ?thesis
    unfolding map_sort_key by blast
qed










section \<open>Slice thickness\<close>

lemma cd_Nil [simp]: "consecutive_differences [] = []"
  by (simp add: consecutive_differences_def)

lemma cd_single [simp]: "consecutive_differences [x] = []"
  by (simp add: consecutive_differences_def)

lemma cd_Cons2 [simp]:
  "consecutive_differences (x # y # r) = (y - x) # consecutive_differences (y # r)"
  by (simp add: consecutive_differences_def)

lemma length_cd [simp]: "length (consecutive_differences xs) = length xs - 1"
  by (simp add: consecutive_differences_def)

lemma nth_cd:
  "Suc i < length xs \<Longrightarrow> consecutive_differences xs ! i = xs ! Suc i - xs ! i"
  by (simp add: consecutive_differences_def nth_tl)

lemma cd_evenly_spaced:
  "consecutive_differences (evenly_spaced a d n) = replicate (n - 1) d"
proof (rule nth_equalityI)
  show "length (consecutive_differences (evenly_spaced a d n)) = length (replicate (n - 1) d)"
    by (simp add: evenly_spaced_def)
next
  fix i assume "i < length (consecutive_differences (evenly_spaced a d n))"
  then have i: "Suc i < n" by (simp add: evenly_spaced_def)
  then have "consecutive_differences (evenly_spaced a d n) ! i = d"
    by (simp add: nth_cd evenly_spaced_def algebra_simps)
  with i show "consecutive_differences (evenly_spaced a d n) ! i = replicate (n - 1) d ! i"
    by simp
qed

lemma sorted_evenly_spaced: "0 \<le> d \<Longrightarrow> sorted (evenly_spaced a d n)"
  by (auto simp: evenly_spaced_def sorted_iff_nth_mono intro!: mult_right_mono)

lemma sorted_nth_less_count:
  assumes "sorted s" and "i < length s" and "s ! i < (d::real)"
  shows "i < length (filter (\<lambda>y. y < d) s)"
proof -
  have "\<forall>y \<in> set (take (Suc i) s). y < d"
  proof
    fix y assume "y \<in> set (take (Suc i) s)"
    then obtain j where "j < Suc i" "j < length s" "y = s ! j"
      by (auto simp: in_set_conv_nth)
    then have "y \<le> s ! i" using assms(1,2) by (auto simp: sorted_iff_nth_mono)
    with assms(3) show "y < d" by simp
  qed
  then have "filter (\<lambda>y. y < d) (take (Suc i) s) = take (Suc i) s" by simp
  moreover have "filter (\<lambda>y. y < d) s =
      filter (\<lambda>y. y < d) (take (Suc i) s) @ filter (\<lambda>y. y < d) (drop (Suc i) s)"
    by (metis append_take_drop_id filter_append)
  ultimately show ?thesis using assms(2) by simp
qed

lemma sorted_nth_greater_count:
  assumes "sorted s" and "i < length s" and "(d::real) < s ! i"
  shows "length s - i \<le> length (filter (\<lambda>y. d < y) s)"
proof -
  have "\<forall>y \<in> set (drop i s). d < y"
  proof
    fix y assume "y \<in> set (drop i s)"
    then obtain j where "j < length s - i" "y = s ! (i + j)"
      by (auto simp: in_set_conv_nth)
    then have "s ! i \<le> y" using assms(1,2) by (auto simp: sorted_iff_nth_mono)
    with assms(3) show "d < y" by simp
  qed
  then have "filter (\<lambda>y. d < y) (drop i s) = drop i s" by simp
  moreover have "filter (\<lambda>y. d < y) s =
      filter (\<lambda>y. d < y) (take i s) @ filter (\<lambda>y. d < y) (drop i s)"
    by (metis append_take_drop_id filter_append)
  ultimately show ?thesis by simp
qed

lemma length_filter_sort:
  "length (filter P (sort xs)) = length (filter P (xs::real list))"
proof -
  have "mset (filter P (sort xs)) = mset (filter P xs)" by simp
  then show ?thesis by (metis size_mset)
qed

lemma sorted_nth_eq:
  assumes "sorted s" and "i < length s"
    and "length (filter (\<lambda>y. y < d) s) \<le> i"
    and "length (filter (\<lambda>y. d < y) s) < length s - i"
  shows "s ! i = (d::real)"
proof -
  have "\<not> s ! i < d" using sorted_nth_less_count [OF assms(1,2)] assms(3) by force
  moreover have "\<not> d < s ! i" using sorted_nth_greater_count [OF assms(1,2)] assms(4) by force
  ultimately show ?thesis by simp
qed

lemma median_by_counts:
  assumes "xs \<noteq> []"
    and "length (filter (\<lambda>y. y < d) xs) \<le> (length xs - 1) div 2"
    and "length (filter (\<lambda>y. d < y) xs) \<le> (length xs - 1) div 2"
  shows "median xs = d"
proof -
  let ?s = "sort xs"
  let ?n = "length xs"
  have n: "0 < ?n" using assms(1) by simp
  have lo: "length (filter (\<lambda>y. y < d) ?s) \<le> (?n - 1) div 2"
    using assms(2) by (simp add: length_filter_sort)
  have hi: "length (filter (\<lambda>y. d < y) ?s) \<le> (?n - 1) div 2"
    using assms(3) by (simp add: length_filter_sort)
  have mid: "?s ! i = d" if "(?n - 1) div 2 \<le> i" "i \<le> ?n div 2" for i
  proof (rule sorted_nth_eq)
    have a: "i < ?n" using that n by arith
    have b: "(?n - 1) div 2 < ?n - i" using that n by arith
    show "sorted ?s" by simp
    show "i < length ?s" using a by simp
    show "length (filter (\<lambda>y. y < d) ?s) \<le> i" using that lo by simp
    show "length (filter (\<lambda>y. d < y) ?s) < length ?s - i"
      using b hi by simp
  qed
  show ?thesis
  proof (cases "odd ?n")
    case True
    then have "?s ! (?n div 2) = d" by (intro mid) arith+
    with True show ?thesis by (simp add: median_def Let_def)
  next
    case False
    then have "?s ! (?n div 2 - 1) = d" "?s ! (?n div 2) = d"
      using n by (intro mid; arith)+
    with False show ?thesis by (simp add: median_def Let_def)
  qed
qed

lemma gaps_below_insort: "gaps_below d (insort x xs) \<le> gaps_below d xs + 2"
proof (induction xs)
  case Nil
  then show ?case by (simp add: gaps_below_def)
next
  case (Cons a xs)
  show ?case
  proof (cases xs)
    case Nil
    then show ?thesis by (simp add: gaps_below_def)
  next
    case (Cons b ys)
    with Cons.IH show ?thesis by (auto simp: gaps_below_def)
  qed
qed

lemma gaps_above_insort:
  assumes "sorted xs" and "\<forall>g \<in> set (consecutive_differences xs). g \<le> 2 * d"
  shows "gaps_above d (insort x xs) \<le> gaps_above d xs + 1"
  using assms
proof (induction xs)
  case Nil
  then show ?case by (simp add: gaps_above_def)
next
  case (Cons a xs)
  show ?case
  proof (cases xs)
    case Nil
    then show ?thesis by (simp add: gaps_above_def)
  next
    case (Cons b ys)
    with Cons.IH Cons.prems show ?thesis by (auto simp: gaps_above_def)
  qed
qed

lemma gaps_below_remove1:
  assumes "sorted xs"
  shows "gaps_below d (remove1 y xs) \<le> gaps_below d xs"
  using assms
proof (induction xs)
  case Nil
  then show ?case by simp
next
  case (Cons a xs)
  show ?case
  proof (cases xs)
    case Nil
    then show ?thesis by (simp add: gaps_below_def)
  next
    case b: (Cons b ys)
    show ?thesis
    proof (cases ys)
      case Nil
      with b Cons.prems show ?thesis by (auto simp: gaps_below_def)
    next
      case (Cons c zs)
      with b Cons.IH Cons.prems show ?thesis by (auto simp: gaps_below_def split: if_splits)
    qed
  qed
qed

lemma gaps_above_remove1:
  assumes "sorted xs"
  shows "gaps_above d (remove1 y xs) \<le> gaps_above d xs + 1"
  using assms
proof (induction xs)
  case Nil
  then show ?case by simp
next
  case (Cons a xs)
  show ?case
  proof (cases xs)
    case Nil
    then show ?thesis by (simp add: gaps_above_def)
  next
    case b: (Cons b ys)
    show ?thesis
    proof (cases ys)
      case Nil
      with b Cons.prems show ?thesis by (auto simp: gaps_above_def)
    next
      case (Cons c zs)
      with b Cons.IH Cons.prems show ?thesis by (auto simp: gaps_above_def split: if_splits)
    qed
  qed
qed

lemma gaps_bound_remove1:
  assumes "sorted xs" and "0 \<le> d" and "\<forall>g \<in> set (consecutive_differences xs). g \<le> d"
  shows "\<forall>g \<in> set (consecutive_differences (remove1 y xs)). g \<le> 2 * d"
  using assms
proof (induction xs)
  case Nil
  then show ?case by simp
next
  case (Cons a xs)
  show ?case
  proof (cases xs)
    case Nil
    then show ?thesis by simp
  next
    case b: (Cons b ys)
    show ?thesis
    proof (cases ys)
      case Nil
      with b Cons.prems show ?thesis by auto
    next
      case (Cons c zs)
      with b Cons.IH Cons.prems show ?thesis by (auto; force)
    qed
  qed
qed

lemma slice_thickness_of_median:
  "consecutive_differences xs \<noteq> [] \<Longrightarrow>
   slice_thickness_of xs = Some (median (consecutive_differences xs))"
  by (simp add: slice_thickness_of_def split: list.splits)

lemma slice_thickness_of_pair: "slice_thickness_of [p, q] = Some (q - p)"
  by (simp add: slice_thickness_of_def median_def)

lemma thickness_evenly_spaced:
  assumes "0 \<le> d" and "2 \<le> n" and "mset coords = mset (evenly_spaced a d n)"
  shows "slice_thickness_of (sort coords) = Some d"
proof -
  have s: "sort coords = evenly_spaced a d n"
    using assms(1,3) by (intro properties_for_sort sorted_evenly_spaced) simp_all
  have cd: "consecutive_differences (sort coords) = replicate (n - 1) d"
    by (simp add: s cd_evenly_spaced)
  have ne: "consecutive_differences (sort coords) \<noteq> []"
    using assms(2) by (simp add: cd)
  have "median (replicate (n - 1) d) = d"
    using assms(2) by (intro median_by_counts) simp_all
  then show ?thesis
    using slice_thickness_of_median [OF ne] by (simp add: cd)
qed

lemma thickness_one_outlier:
  assumes "0 \<le> d" and "6 \<le> n" and "k < n"
    and "mset coords = mset ((evenly_spaced a d n)[k := x])"
  shows "slice_thickness_of (sort coords) = Some d"
proof -
  let ?P = "evenly_spaced a d n"
  let ?R = "remove1 (?P ! k) ?P"
  let ?S = "insort x ?R"
  have len: "length ?P = n" by (simp add: evenly_spaced_def)
  have sP: "sorted ?P" using assms(1) by (rule sorted_evenly_spaced)
  have sR: "sorted ?R" using sP by (rule sorted_remove1)
  have kin: "?P ! k \<in> set ?P" using assms(3) len by simp
  have "mset ?S = add_mset x (mset ?P - {#?P ! k#})"
    by simp
  also have "\<dots> = mset (?P[k := x])"
    using assms(3) len by (simp add: mset_update)
  finally have "mset ?S = mset coords" using assms(4) by simp
  then have s: "sort coords = ?S"
    using sR by (intro properties_for_sort) (simp_all add: sorted_insort)
  have cdP: "consecutive_differences ?P = replicate (n - 1) d"
    by (rule cd_evenly_spaced)
  have b0: "gaps_below d ?P = 0" and a0: "gaps_above d ?P = 0"
    by (simp_all add: gaps_below_def gaps_above_def cdP)
  have gP: "\<forall>g \<in> set (consecutive_differences ?P). g \<le> d"
    by (simp add: cdP)
  have bR: "gaps_below d ?R = 0"
    using gaps_below_remove1 [OF sP, of d "?P ! k"] b0 by simp
  have aR: "gaps_above d ?R \<le> 1"
    using gaps_above_remove1 [OF sP, of d "?P ! k"] a0 by simp
  have gR: "\<forall>g \<in> set (consecutive_differences ?R). g \<le> 2 * d"
    using sP assms(1) gP by (rule gaps_bound_remove1)
  have bS: "gaps_below d ?S \<le> 2"
    using gaps_below_insort [of d x ?R] bR by simp
  have aS: "gaps_above d ?S \<le> 2"
    using gaps_above_insort [OF sR gR, of x] aR by simp
  have "length ?R = length ?P - 1"
    using kin by (simp only: length_remove1 if_True)
  then have lR: "Suc (length ?R) = n"
    unfolding len using assms(2) by linarith
  have lS: "length ?S = n"
    unfolding length_insort by (rule lR)
  have lD: "length (consecutive_differences ?S) = n - 1"
    unfolding length_cd lS by (rule refl)
  have ne: "consecutive_differences ?S \<noteq> []"
  proof
    assume "consecutive_differences ?S = []"
    then have "length (consecutive_differences ?S) = 0" by (simp only: list.size)
    with lD assms(2) show False by linarith
  qed
  have two: "2 \<le> (n - 1 - 1) div 2" using assms(2) by linarith
  have "median (consecutive_differences ?S) = d"
  proof (rule median_by_counts [OF ne])
    show "length (filter (\<lambda>y. y < d) (consecutive_differences ?S))
            \<le> (length (consecutive_differences ?S) - 1) div 2"
      using bS two unfolding gaps_below_def lD by simp
    show "length (filter (\<lambda>y. d < y) (consecutive_differences ?S))
            \<le> (length (consecutive_differences ?S) - 1) div 2"
      using aS two unfolding gaps_above_def lD by simp
  qed
  then show ?thesis
    using slice_thickness_of_median [OF ne] by (simp add: s)
qed

lemma long_outlier_coords:
  "map (axis_coordinate (slice_axis (metadata (hd long_outlier_stack)))) long_outlier_stack =
     [0, 2, 50, 6, 8, 10]"
  by (simp add: long_outlier_stack_def example_item_def axis_coordinate_def slice_axis_def
        cross_def dot_def)

lemma even_coords:
  "map (axis_coordinate (slice_axis (metadata (hd even_stack)))) even_stack = [0, 2, 4, 6]"
  by (simp add: even_stack_def example_item_def axis_coordinate_def slice_axis_def
        cross_def dot_def)

lemma evenly_spaced_6: "evenly_spaced 0 2 6 = [0, 2, 4, 6, 8, 10]"
  by (simp add: evenly_spaced_def eval_nat_numeral)

lemma evenly_spaced_4: "evenly_spaced 0 2 4 = [0, 2, 4, 6]"
  by (simp add: evenly_spaced_def eval_nat_numeral)

text \<open>
  C8, as stated, fails: four slices at 0, 2, 4, 6 give the thickness 2, and with the one
  slice at 2 moved to 100 the sorted positions are 0, 4, 6, 100, their differences 4, 2, 94
  and the median 4. (\<open>sort_and_get_parameters\<close> is modelled from the spec.)
\<close>

theorem single_outlier_counterexample:
  "snd (sort_and_get_parameters even_stack) =
     Inr (even_stack, Some 2, Some (0, 0, 0), [0, 2, 4, 6])
   \<and> snd (sort_and_get_parameters outlier_stack) =
     Inr ([example_item ''s/e0'' 1 ''E'' 0, example_item ''s/e2'' 1 ''E'' 4,
           example_item ''s/e3'' 1 ''E'' 6, example_item ''s/e1'' 1 ''E'' 100],
          Some 4, Some (0, 0, 0), [0, 4, 6, 100])"
  by (simp add: geometry_eval even_stack_def outlier_stack_def example_item_def seq_Inr ret_def)

text \<open>
  C8, amended. For a stack in which every slice has a position,
  \<open>sort_and_get_parameters\<close> returns as thickness the median of the consecutive
  differences of the sorted coordinates along the slice axis, for two slices their single
  difference. For \<open>n \<ge> 3\<close> evenly spaced slices with spacing \<open>d\<close> it is \<open>d\<close>, and it
  still is \<open>d\<close> when one of \<open>n \<ge> 6\<close> evenly spaced positions is replaced by any
  other value. Coordinates are real numbers, so the equalities are exact.
\<close>

theorem slice_thickness_is_median_of_differences:
  assumes "stack \<noteq> []" and "list_all has_position stack"
    and "coords = map (axis_coordinate (slice_axis (metadata (hd stack)))) stack"
  shows "(\<exists>st og. snd (sort_and_get_parameters stack) =
                    Inr (st, slice_thickness_of (sort coords), og, sort coords))
       \<and> (2 \<le> length stack \<longrightarrow>
            slice_thickness_of (sort coords) =
              Some (median (consecutive_differences (sort coords))))
       \<and> (\<forall>p q. sort coords = [p, q] \<longrightarrow> slice_thickness_of (sort coords) = Some (q - p))
       \<and> (\<forall>a d n. 0 \<le> d \<and> 3 \<le> n \<and> mset coords = mset (evenly_spaced a d n) \<longrightarrow>
            slice_thickness_of (sort coords) = Some d)
       \<and> (\<forall>a d n k x. 0 \<le> d \<and> 6 \<le> n \<and> k < n
              \<and> mset coords = mset ((evenly_spaced a d n)[k := x]) \<longrightarrow>
            slice_thickness_of (sort coords) = Some d)"
proof -
  have 1: "\<exists>st og. snd (sort_and_get_parameters stack) =
                    Inr (st, slice_thickness_of (sort coords), og, sort coords)"
    unfolding assms(3) using assms(1,2) by (rule sort_and_get_parameters_positions)
  have 2: "slice_thickness_of (sort coords) =
             Some (median (consecutive_differences (sort coords)))"
    if "2 \<le> length stack"
  proof (rule slice_thickness_of_median)
    have "length (consecutive_differences (sort coords)) = length stack - 1"
      by (simp add: assms(3))
    with that show "consecutive_differences (sort coords) \<noteq> []" by force
  qed
  have 3: "slice_thickness_of (sort coords) = Some (q - p)" if "sort coords = [p, q]" for p q
    using that by (simp add: slice_thickness_of_pair)
  have 4: "slice_thickness_of (sort coords) = Some d"
    if "0 \<le> d \<and> 3 \<le> n \<and> mset coords = mset (evenly_spaced a d n)" for a d n
    using that by (intro thickness_evenly_spaced [of d n _ a]) auto
  have 5: "slice_thickness_of (sort coords) = Some d"
    if "0 \<le> d \<and> 6 \<le> n \<and> k < n \<and> mset coords = mset ((evenly_spaced a d n)[k := x])"
    for a d n k x
    using that by (intro thickness_one_outlier [of d n k _ a x]) auto
  show ?thesis
    using 1 2 3 4 5 by blast
qed

theorem slice_thickness_is_median_of_differences_witness:
  "long_outlier_stack \<noteq> [] \<and> list_all has_position long_outlier_stack
   \<and> (0::real) \<le> 2 \<and> (6::nat) \<le> 6 \<and> (2::nat) < 6
   \<and> mset (map (axis_coordinate (slice_axis (metadata (hd long_outlier_stack))))
              long_outlier_stack) = mset ((evenly_spaced 0 2 6)[2 := 50])
   \<and> (\<exists>st og. snd (sort_and_get_parameters long_outlier_stack) =
                  Inr (st, Some 2, og, [0, 2, 6, 8, 10, 50]))
   \<and> even_stack \<noteq> [] \<and> list_all has_position even_stack \<and> (3::nat) \<le> 4
   \<and> mset (map (axis_coordinate (slice_axis (metadata (hd even_stack)))) even_stack) =
       mset (evenly_spaced 0 2 4)
   \<and> (\<exists>st og. snd (sort_and_get_parameters even_stack) = Inr (st, Some 2, og, [0, 2, 4, 6]))"
proof -
  have l1: "long_outlier_stack \<noteq> []" by (simp add: long_outlier_stack_def)
  have l2: "list_all has_position long_outlier_stack"
    by (simp add: long_outlier_stack_def example_item_def has_position_def)
  have l3: "mset (map (axis_coordinate (slice_axis (metadata (hd long_outlier_stack))))
              long_outlier_stack) = mset ((evenly_spaced 0 2 6)[2 := 50])"
    by (simp add: long_outlier_coords evenly_spaced_6)
  have e1: "even_stack \<noteq> []" by (simp add: even_stack_def)
  have e2: "list_all has_position even_stack"
    by (simp add: even_stack_def example_item_def has_position_def)
  have e3: "mset (map (axis_coordinate (slice_axis (metadata (hd even_stack)))) even_stack) =
       mset (evenly_spaced 0 2 4)"
    by (simp add: even_coords evenly_spaced_4)
  note L = slice_thickness_is_median_of_differences [OF l1 l2 refl]
  note E = slice_thickness_is_median_of_differences [OF e1 e2 refl]
  have lt: "slice_thickness_of (sort (map (axis_coordinate
              (slice_axis (metadata (hd long_outlier_stack)))) long_outlier_stack)) = Some 2"
    using L [THEN conjunct2, THEN conjunct2, THEN conjunct2, THEN conjunct2, rule_format,
        of 2 6 2 0 50] l3
    by simp
  have et: "slice_thickness_of (sort (map (axis_coordinate
              (slice_axis (metadata (hd even_stack)))) even_stack)) = Some 2"
    using E [THEN conjunct2, THEN conjunct2, THEN conjunct2, THEN conjunct1, rule_format,
        of 2 4 0] e3
    by simp
  have ls: "sort (map (axis_coordinate (slice_axis (metadata (hd long_outlier_stack))))
              long_outlier_stack) = [0, 2, 6, 8, 10, 50]"
    by (simp add: long_outlier_coords)
  have es: "sort (map (axis_coordinate (slice_axis (metadata (hd even_stack)))) even_stack)
              = [0, 2, 4, 6]"
    by (simp add: even_coords)
  have lr: "\<exists>st og. snd (sort_and_get_parameters long_outlier_stack) =
                  Inr (st, Some 2, og, [0, 2, 6, 8, 10, 50])"
    using L [THEN conjunct1] lt unfolding ls by simp
  have er: "\<exists>st og. snd (sort_and_get_parameters even_stack) =
                  Inr (st, Some 2, og, [0, 2, 4, 6])"
    using E [THEN conjunct1] et unfolding es by simp
  show ?thesis
    using l1 l2 l3 e1 e2 e3 lr er by simp
qed

end
